theory Spec2Isabelle
  imports Main
begin

section \<open>The phoneflip client: application state and listing queries\<close>

text \<open>
  The source is one React component, \<^verbatim>\<open>App\<close> (frontend/src/App.js; the two further
  variants of the component carry the same handlers). Its \<^verbatim>\<open>useState\<close> cells are
  the fields of one state record; a handler is a function from the state to the new state.
  What the component does to the world beyond its own cells is part of the state too: the
  single \<^verbatim>\<open>localStorage\<close> entry, the default \<^verbatim>\<open>Authorization\<close> header of axios, the
  number of toast timers that were started, and the list of HTTP calls issued so far.
  An awaited HTTP call is answered by the environment: the handler takes the answer as an
  argument of type \<open>response\<close>.
\<close>

subsection \<open>Strings of JavaScript\<close>

text \<open>
  \<^verbatim>\<open>String.prototype.toLowerCase\<close> on the letters A to Z; every other character is kept.
  A string is the list of its bytes. The catalog of model names is ASCII, and a character
  outside ASCII in the input matches none of its entries before or after lower-casing.
\<close>

definition toLowerCase_char :: "char \<Rightarrow> char" where
  "toLowerCase_char c =
     (let n = (of_char c :: nat) in if 65 \<le> n \<and> n \<le> 90 then char_of (n + 32) else c)"

definition toLowerCase :: "string \<Rightarrow> string" where
  "toLowerCase s = map toLowerCase_char s"

text \<open>\<^verbatim>\<open>s.startsWith(t)\<close> and \<^verbatim>\<open>s.includes(t)\<close>: the text \<open>t\<close> occurs in \<open>s\<close> at the first
  position, or at some position.\<close>

fun startsWith :: "string \<Rightarrow> string \<Rightarrow> bool" where
  "startsWith s [] = True"
| "startsWith [] (d # t) = False"
| "startsWith (c # s) (d # t) = (c = d \<and> startsWith s t)"

fun includes_str :: "string \<Rightarrow> string \<Rightarrow> bool" where
  "includes_str [] t = (t = [])"
| "includes_str (c # s) t = (startsWith (c # s) t \<or> includes_str s t)"

text \<open>\<^verbatim>\<open>s.replace(pat, rep)\<close> with a string pattern: the first occurrence only.\<close>

fun replace_first :: "string \<Rightarrow> string \<Rightarrow> string \<Rightarrow> string" where
  "replace_first pat rep [] = (if pat = [] then rep else [])"
| "replace_first pat rep (c # s) =
     (if startsWith (c # s) pat then rep @ drop (length pat) (c # s)
      else c # replace_first pat rep s)"

text \<open>\<^verbatim>\<open>String(n)\<close> for a page number: decimal digits.\<close>

definition digit_char :: "nat \<Rightarrow> char" where
  "digit_char d = char_of (48 + d)"

fun string_of_nat :: "nat \<Rightarrow> string" where
  "string_of_nat n =
     (if n < 10 then [digit_char n] else string_of_nat (n div 10) @ [digit_char (n mod 10)])"

declare string_of_nat.simps [simp del]

text \<open>A string is truthy when it is not empty.\<close>

definition truthy :: "string \<Rightarrow> bool" where
  "truthy v = (v \<noteq> [])"

subsection \<open>Data\<close>

record listing =
  l_id :: nat
  title :: string
  l_brand :: string
  l_condition :: string
  price :: int
  negotiable :: bool
  l_city :: string

record user_info =
  u_id :: nat
  name :: string
  email :: string
  user_type :: string

record conversation =
  conv_id :: nat
  unread_count :: nat

record filters_rec =
  brand :: string
  city :: string
  condition :: string
  search :: string
  minPrice :: string
  maxPrice :: string
  sortBy :: string

record toast_rec =
  message :: string
  type :: string

text \<open>An object literal: its own properties in insertion order.\<close>

type_synonym js_object = "(string \<times> string) list"

text \<open>The answer to an awaited call: the data of a 2xx response, or a rejection with
  \<^verbatim>\<open>error.response?.data?.detail\<close> when the server sent one.\<close>

datatype 'a response = Ok 'a | Failed "string option"

text \<open>An HTTP call under \<^verbatim>\<open>${API}\<close>: method, path, and for GET the query parameters
  (a \<^verbatim>\<open>URLSearchParams\<close>, a list of pairs in the order they were appended).\<close>

datatype http_call =
    Get string "(string \<times> string) list"
  | Post string
  | Delete string

record app_state =
  currentPage :: string
  user :: "user_info option"
  token :: "string option"
  listings :: "listing list"
  filters :: filters_rec
  searchSuggestions :: "string list"
  showSuggestions :: bool
  searchQuery :: string
  searchHistory :: "string list"
  favorites :: "listing list"
  selectedConversation :: "conversation option"
  toast :: "toast_rec option"
  loading :: bool
  page :: nat
  hasMoreListings :: bool
  localStorage_token :: "string option"
  authHeader :: "string option"
  toastTimers :: nat
  requests :: "http_call list"

definition initial_filters :: filters_rec where
  "initial_filters =
     \<lparr>brand = [], city = [], condition = [], search = [], minPrice = [], maxPrice = [],
      sortBy = ''recent''\<rparr>"

text \<open>The state of the first render; \<open>stored\<close> is what \<^verbatim>\<open>localStorage.getItem('token')\<close>
  returns.\<close>

definition initial_state :: "string option \<Rightarrow> app_state" where
  "initial_state stored =
     \<lparr>currentPage = ''home'', user = None, token = stored, listings = [],
      filters = initial_filters, searchSuggestions = [], showSuggestions = False,
      searchQuery = [], searchHistory = [''iPhone 13'', ''Samsung S24'', ''Xiaomi Note''],
      favorites = [], selectedConversation = None, toast = None, loading = False,
      page = 1, hasMoreListings = True, localStorage_token = stored, authHeader = None,
      toastTimers = 0, requests = []\<rparr>"

subsection \<open>Toasts and calls\<close>

text \<open>\<^verbatim>\<open>showToast\<close> sets the toast and starts a timer of three seconds; when the timer
  fires the toast is cleared.\<close>

definition showToast :: "string \<Rightarrow> string \<Rightarrow> app_state \<Rightarrow> app_state" where
  "showToast msg ty st =
     st\<lparr>toast := Some \<lparr>message = msg, type = ty\<rparr>, toastTimers := toastTimers st + 1\<rparr>"

definition toastTimeout :: "app_state \<Rightarrow> app_state" where
  "toastTimeout st = st\<lparr>toast := None, toastTimers := toastTimers st - 1\<rparr>"

definition issue :: "http_call \<Rightarrow> app_state \<Rightarrow> app_state" where
  "issue c st = st\<lparr>requests := requests st @ [c]\<rparr>"

subsection \<open>loadListings\<close>

text \<open>\<^verbatim>\<open>{...filters}\<close>: the entries of the filter object, in the order of the literal that
  created it.\<close>

definition filters_entries :: "filters_rec \<Rightarrow> js_object" where
  "filters_entries f =
     [(''brand'', brand f), (''city'', city f), (''condition'', condition f),
      (''search'', search f), (''minPrice'', minPrice f), (''maxPrice'', maxPrice f),
      (''sortBy'', sortBy f)]"

text \<open>Assigning a property keeps the position of a key the object has and puts a new key
  last; \<^verbatim>\<open>{...a, ...b}\<close> assigns the entries of \<open>b\<close> one after the other.\<close>

fun set_prop :: "js_object \<Rightarrow> string \<Rightarrow> string \<Rightarrow> js_object" where
  "set_prop [] k v = [(k, v)]"
| "set_prop ((k', v') # obj) k v =
     (if k' = k then (k', v) # obj else (k', v') # set_prop obj k v)"

fun spread :: "js_object \<Rightarrow> js_object \<Rightarrow> js_object" where
  "spread a [] = a"
| "spread a ((k, v) # b) = spread (set_prop a k v) b"

text \<open>\<^verbatim>\<open>searchFilters.search\<close>: the value of the property, \<^verbatim>\<open>undefined\<close> (falsy, as the
  empty string is) when the object has none.\<close>

definition get_prop :: "js_object \<Rightarrow> string \<Rightarrow> string" where
  "get_prop obj k = (case map_of obj k of None \<Rightarrow> [] | Some v \<Rightarrow> v)"

text \<open>The \<^verbatim>\<open>forEach\<close> over the entries of the merged object.\<close>

fun add_filters :: "js_object \<Rightarrow> (string \<times> string) list \<Rightarrow> (string \<times> string) list" where
  "add_filters [] params = params"
| "add_filters ((key, v) # entries) params =
     add_filters entries
       (if truthy v \<and> key \<noteq> ''search'' then
          (if key = ''minPrice'' \<or> key = ''maxPrice''
           then params @ [(replace_first ''Price'' ''_price'' key, v)]
           else params @ [(if key = ''sortBy'' then ''sort_by'' else key, v)])
        else params)"

definition loadListings_params :: "filters_rec \<Rightarrow> js_object \<Rightarrow> nat \<Rightarrow> (string \<times> string) list" where
  "loadListings_params f searchFilters pageNum =
     (let params = add_filters (spread (filters_entries f) searchFilters) [];
          params = (if truthy (get_prop searchFilters ''search'') \<or> truthy (search f)
                    then params @ [(''search'',
                           if truthy (get_prop searchFilters ''search'')
                           then get_prop searchFilters ''search'' else search f)]
                    else params);
          params = params @ [(''page'', string_of_nat pageNum)];
          params = params @ [(''limit'', ''20'')]
      in params)"

text \<open>What a running \<^verbatim>\<open>loadListings\<close> holds while it awaits the answer: its arguments.\<close>

record listings_call =
  lc_params :: "(string \<times> string) list"
  lc_pageNum :: nat
  lc_append :: bool

text \<open>Up to the \<^verbatim>\<open>await\<close>: the loading flag is set and the request leaves.\<close>

definition loadListings_begin ::
  "js_object \<Rightarrow> nat \<Rightarrow> bool \<Rightarrow> app_state \<Rightarrow> app_state \<times> listings_call" where
  "loadListings_begin searchFilters pageNum appendFlag st =
     (let params = loadListings_params (filters st) searchFilters pageNum
      in (issue (Get ''/listings'' params) (st\<lparr>loading := True\<rparr>),
          \<lparr>lc_params = params, lc_pageNum = pageNum, lc_append = appendFlag\<rparr>))"

text \<open>From the answer on: the \<^verbatim>\<open>try\<close> body, the \<^verbatim>\<open>catch\<close> and the \<^verbatim>\<open>finally\<close>.\<close>

definition loadListings_complete ::
  "listings_call \<Rightarrow> listing list response \<Rightarrow> app_state \<Rightarrow> app_state" where
  "loadListings_complete c resp st =
     (case resp of
        Ok data \<Rightarrow>
          (let st = (if lc_append c then st\<lparr>listings := listings st @ data\<rparr>
                     else st\<lparr>listings := data\<rparr>);
               st = st\<lparr>hasMoreListings := (length data = 20)\<rparr>;
               st = st\<lparr>page := lc_pageNum c\<rparr>
           in st\<lparr>loading := False\<rparr>)
      | Failed detail \<Rightarrow>
          (let st = showToast ''Error loading listings'' ''error'' st;
               st = st\<lparr>listings := []\<rparr>
           in st\<lparr>loading := False\<rparr>))"

text \<open>The whole call when nothing else happens while it waits.\<close>

definition loadListings ::
  "js_object \<Rightarrow> nat \<Rightarrow> bool \<Rightarrow> listing list response \<Rightarrow> app_state \<Rightarrow> app_state" where
  "loadListings searchFilters pageNum appendFlag resp st =
     (case loadListings_begin searchFilters pageNum appendFlag st of
        (st', c) \<Rightarrow> loadListings_complete c resp st')"

text \<open>\<^verbatim>\<open>loadMoreListings\<close>: the handler of the "Load more" button.\<close>

definition loadMoreListings :: "app_state \<Rightarrow> app_state \<times> listings_call option" where
  "loadMoreListings st =
     (if hasMoreListings st \<and> \<not> loading st
      then (case loadListings_begin [] (page st + 1) True st of (st', c) \<Rightarrow> (st', Some c))
      else (st, None))"

subsection \<open>Changing the filters\<close>

text \<open>
  \<^verbatim>\<open>useEffect(() => { loadListings(); }, [filters.brand, filters.city, filters.condition,
  filters.sortBy])\<close>: after a render the effect runs when one of the four dependencies
  differs from its value at the previous render; \<open>prev\<close> is the filter object of the
  previous render. The call takes the defaults \<^verbatim>\<open>searchFilters = {}\<close>, \<^verbatim>\<open>pageNum = 1\<close>,
  \<^verbatim>\<open>append = false\<close>.
\<close>

definition filterDeps :: "filters_rec \<Rightarrow> string \<times> string \<times> string \<times> string" where
  "filterDeps f = (brand f, city f, condition f, sortBy f)"

definition setFilters :: "filters_rec \<Rightarrow> app_state \<Rightarrow> app_state" where
  "setFilters f st = st\<lparr>filters := f\<rparr>"

definition filtersEffect :: "filters_rec \<Rightarrow> app_state \<Rightarrow> app_state \<times> listings_call option" where
  "filtersEffect prev st =
     (if filterDeps (filters st) \<noteq> filterDeps prev
      then (case loadListings_begin [] 1 False st of (st', c) \<Rightarrow> (st', Some c))
      else (st, None))"


text \<open>
  The click on a brand card of the categories page, up to the \<^verbatim>\<open>await\<close> inside
  \<^verbatim>\<open>loadListings\<close>: \<^verbatim>\<open>setFilters({...filters, brand}); loadListings({brand});
  setCurrentPage('searchResults')\<close>. The call reads the filters of the render the handler
  belongs to; the render that follows runs \<open>filtersEffect\<close>.
\<close>

definition categoryCardClick :: "string \<Rightarrow> app_state \<Rightarrow> app_state \<times> listings_call" where
  "categoryCardClick b st =
     (case loadListings_begin [(''brand'', b)] 1 False st of
        (st', c) \<Rightarrow>
          (st'\<lparr>filters := (filters st)\<lparr>brand := b\<rparr>, currentPage := ''searchResults''\<rparr>, c))"


subsection \<open>Search suggestions\<close>

definition phoneModels :: "string list" where
  "phoneModels =
     [''iPhone 15 Pro Max'', ''iPhone 15 Pro'', ''iPhone 15'', ''iPhone 14 Pro Max'',
      ''iPhone 14 Pro'', ''iPhone 14'', ''iPhone 13 Pro Max'', ''iPhone 13 Pro'', ''iPhone 13'',
      ''Samsung Galaxy S24 Ultra'', ''Samsung Galaxy S24+'', ''Samsung Galaxy S24'',
      ''Samsung Galaxy S23 Ultra'', ''Samsung Galaxy S23+'', ''Samsung Galaxy S23'',
      ''Samsung Galaxy Note 20 Ultra'', ''Samsung Galaxy A54'', ''Samsung Galaxy A34'',
      ''Samsung Galaxy A14'',
      ''Google Pixel 8 Pro'', ''Google Pixel 8'', ''Google Pixel 7 Pro'', ''Google Pixel 7'',
      ''Google Pixel 6 Pro'',
      ''OnePlus 12'', ''OnePlus 11'', ''OnePlus 10 Pro'', ''OnePlus Nord 3'', ''OnePlus Nord CE 3'',
      ''Xiaomi 14 Pro'', ''Xiaomi 14'', ''Xiaomi 13 Pro'', ''Xiaomi Redmi Note 13 Pro'',
      ''Xiaomi Redmi Note 13'', ''Xiaomi Redmi Note 12 Pro'',
      ''Nothing Phone (2)'', ''Nothing Phone (1)'', ''Realme GT 6'', ''Realme 12 Pro+'',
      ''Vivo V30 Pro'', ''Vivo V30'', ''Oppo Reno 11 Pro'', ''Oppo Reno 11'']"

text \<open>\<^verbatim>\<open>handleSearchInput(value)\<close>, the \<^verbatim>\<open>onChange\<close> handler of the search box of the
  component variant that has suggestions. \<^verbatim>\<open>slice(0, 6)\<close> keeps the first six.\<close>

definition handleSearchInput :: "string \<Rightarrow> app_state \<Rightarrow> app_state" where
  "handleSearchInput v st =
     (let st1 = st\<lparr>searchQuery := v\<rparr>;
          st1 = setFilters ((filters st)\<lparr>search := v\<rparr>) st1
      in if length v > 0 then
           (let suggestions =
                  take 6 (filter (\<lambda>model. includes_str (toLowerCase model) (toLowerCase v))
                            phoneModels);
                st1 = st1\<lparr>searchSuggestions := suggestions\<rparr>
            in st1\<lparr>showSuggestions := True\<rparr>)
         else st1\<lparr>showSuggestions := False\<rparr>)"

text \<open>The dropdown is rendered under
  \<^verbatim>\<open>showSuggestions && searchSuggestions.length > 0\<close>.\<close>

definition suggestionsVisible :: "app_state \<Rightarrow> bool" where
  "suggestionsVisible st = (showSuggestions st \<and> length (searchSuggestions st) > 0)"

text \<open>
  Two characters are the same letter when they are equal or one is a capital letter and
  the other the small letter at the same place of the alphabet. This is what "contains
  case-insensitively" means below; it is stated without \<open>toLowerCase\<close>.
\<close>

definition capital_letters :: string where
  "capital_letters = ''ABCDEFGHIJKLMNOPQRSTUVWXYZ''"

definition small_letters :: string where
  "small_letters = ''abcdefghijklmnopqrstuvwxyz''"

definition same_letter :: "char \<Rightarrow> char \<Rightarrow> bool" where
  "same_letter c d =
     (c = d \<or> (c, d) \<in> set (zip capital_letters small_letters)
            \<or> (d, c) \<in> set (zip capital_letters small_letters))"

subsection \<open>Session\<close>

record auth_response =
  access_token :: string
  auth_user :: user_info

text \<open>\<^verbatim>\<open>connectWebSocket\<close> only writes to the console.\<close>

definition connectWebSocket :: "app_state \<Rightarrow> app_state" where
  "connectWebSocket st = st"

definition loadCurrentUser :: "user_info response \<Rightarrow> app_state \<Rightarrow> app_state" where
  "loadCurrentUser resp st =
     (let st = issue (Get ''/auth/me'' []) st
      in case resp of
           Ok data \<Rightarrow> connectWebSocket (st\<lparr>user := Some data\<rparr>)
         | Failed detail \<Rightarrow> (let st = st\<lparr>token := None\<rparr> in st\<lparr>localStorage_token := None\<rparr>))"

text \<open>The effect on \<^verbatim>\<open>[token]\<close>; \<open>resp\<close> answers the call of \<^verbatim>\<open>loadCurrentUser\<close> when
  there is one.\<close>

definition tokenEffect :: "user_info response \<Rightarrow> app_state \<Rightarrow> app_state" where
  "tokenEffect resp st =
     (case token st of
        Some t \<Rightarrow>
          (if truthy t then loadCurrentUser resp (st\<lparr>authHeader := Some (''Bearer '' @ t)\<rparr>)
           else st\<lparr>authHeader := None\<rparr>)
      | None \<Rightarrow> st\<lparr>authHeader := None\<rparr>)"

text \<open>\<^verbatim>\<open>error.response?.data?.detail || fallback\<close>.\<close>

definition detail_or :: "string option \<Rightarrow> string \<Rightarrow> string" where
  "detail_or detail fallback =
     (case detail of None \<Rightarrow> fallback | Some d \<Rightarrow> if truthy d then d else fallback)"

definition handleLogin :: "js_object \<Rightarrow> auth_response response \<Rightarrow> app_state \<Rightarrow> app_state" where
  "handleLogin loginData resp st =
     (let st = st\<lparr>loading := True\<rparr>;
          st = issue (Post ''/auth/login'') st;
          st = (case resp of
                  Ok data \<Rightarrow>
                    (let st = st\<lparr>token := Some (access_token data)\<rparr>;
                         st = st\<lparr>user := Some (auth_user data)\<rparr>;
                         st = st\<lparr>localStorage_token := Some (access_token data)\<rparr>;
                         st = showToast ''Login successful!'' ''success'' st
                     in st\<lparr>currentPage := ''home''\<rparr>)
                | Failed detail \<Rightarrow> showToast (detail_or detail ''Login failed'') ''error'' st)
      in st\<lparr>loading := False\<rparr>)"

text \<open>\<^verbatim>\<open>handleLogout\<close>; no socket is ever stored in \<^verbatim>\<open>wsRef\<close>, so its branch is dead.\<close>

definition handleLogout :: "app_state \<Rightarrow> app_state" where
  "handleLogout st =
     (let st = st\<lparr>token := None\<rparr>;
          st = st\<lparr>user := None\<rparr>;
          st = st\<lparr>localStorage_token := None\<rparr>;
          st = st\<lparr>currentPage := ''home''\<rparr>
      in showToast ''Logged out successfully'' ''info'' st)"

subsection \<open>Favorites, messages, reviews\<close>

text \<open>The loaders that the handlers start without awaiting them; only the call is of
  interest here.\<close>

definition loadFavorites_begin :: "app_state \<Rightarrow> app_state" where
  "loadFavorites_begin st = issue (Get ''/favorites'' []) st"

definition loadFavorites_complete :: "listing list response \<Rightarrow> app_state \<Rightarrow> app_state" where
  "loadFavorites_complete resp st =
     (case resp of Ok data \<Rightarrow> st\<lparr>favorites := data\<rparr> | Failed detail \<Rightarrow> st)"

definition loadConversations_begin :: "app_state \<Rightarrow> app_state" where
  "loadConversations_begin st = issue (Get ''/conversations'' []) st"

definition loadMessages_begin :: "nat \<Rightarrow> app_state \<Rightarrow> app_state" where
  "loadMessages_begin conversationId st =
     issue (Get (''/conversations/'' @ string_of_nat conversationId @ ''/messages'') []) st"

definition loadUserReviews_begin :: "nat \<Rightarrow> app_state \<Rightarrow> app_state" where
  "loadUserReviews_begin userId st =
     issue (Get (''/users/'' @ string_of_nat userId @ ''/reviews'') []) st"

definition toggleFavorite :: "nat \<Rightarrow> unit response \<Rightarrow> app_state \<Rightarrow> app_state" where
  "toggleFavorite listingId resp st =
     (if user st = None then showToast ''Please login to add favorites'' ''error'' st
      else
        (let isFavorited = list_ex (\<lambda>fav. l_id fav = listingId) (favorites st)
         in if isFavorited then
              (let st = issue (Delete (''/favorites/'' @ string_of_nat listingId)) st
               in case resp of
                    Ok u \<Rightarrow> loadFavorites_begin (showToast ''Removed from favorites'' ''info'' st)
                  | Failed detail \<Rightarrow> showToast ''Error updating favorites'' ''error'' st)
            else
              (let st = issue (Post (''/favorites/'' @ string_of_nat listingId)) st
               in case resp of
                    Ok u \<Rightarrow> loadFavorites_begin (showToast ''Added to favorites'' ''success'' st)
                  | Failed detail \<Rightarrow> showToast ''Error updating favorites'' ''error'' st)))"

definition sendMessage ::
  "nat \<Rightarrow> nat \<Rightarrow> string \<Rightarrow> string \<Rightarrow> int option \<Rightarrow> unit response \<Rightarrow> app_state \<Rightarrow> app_state" where
  "sendMessage receiverId listingId content messageType offerAmount resp st =
     (if user st = None then showToast ''Please login to send messages'' ''error'' st
      else
        (let st = issue (Post ''/messages'') st
         in case resp of
              Ok u \<Rightarrow>
                (let st = (case selectedConversation st of
                             Some conv \<Rightarrow> loadMessages_begin (conv_id conv) st
                           | None \<Rightarrow> st)
                 in loadConversations_begin st)
            | Failed detail \<Rightarrow> showToast ''Error sending message'' ''error'' st))"

definition submitReview ::
  "nat \<Rightarrow> nat \<Rightarrow> nat \<Rightarrow> string \<Rightarrow> unit response \<Rightarrow> app_state \<Rightarrow> app_state" where
  "submitReview reviewedUserId listingId rating comment resp st =
     (if user st = None then showToast ''Please login to submit reviews'' ''error'' st
      else
        (let st = issue (Post ''/reviews'') st
         in case resp of
              Ok u \<Rightarrow>
                loadUserReviews_begin reviewedUserId
                  (showToast ''Review submitted successfully'' ''success'' st)
            | Failed detail \<Rightarrow>
                showToast (detail_or detail ''Error submitting review'') ''error'' st))"

subsection \<open>The request in the words of the specification\<close>

text \<open>The name under which a key of the merged filter object is sent.\<close>

definition param_name :: "string \<Rightarrow> string" where
  "param_name key =
     (if key = ''sortBy'' then ''sort_by''
      else if key = ''minPrice'' then ''min_price''
      else if key = ''maxPrice'' then ''max_price''
      else key)"

text \<open>
  The parameters as the specification lists them, to be compared with
  \<open>loadListings_params\<close>: the non-empty fields of the stored filters under their
  parameter names, the search text of the override when it has one and of the stored
  filters otherwise, the page and the limit.
\<close>

definition claimed_params :: "filters_rec \<Rightarrow> js_object \<Rightarrow> nat \<Rightarrow> (string \<times> string) list" where
  "claimed_params f searchFilters pageNum =
     (if brand f \<noteq> [] then [(''brand'', brand f)] else [])
     @ (if city f \<noteq> [] then [(''city'', city f)] else [])
     @ (if condition f \<noteq> [] then [(''condition'', condition f)] else [])
     @ (if minPrice f \<noteq> [] then [(''min_price'', minPrice f)] else [])
     @ (if maxPrice f \<noteq> [] then [(''max_price'', maxPrice f)] else [])
     @ (if sortBy f \<noteq> [] then [(''sort_by'', sortBy f)] else [])
     @ (if get_prop searchFilters ''search'' \<noteq> []
        then [(''search'', get_prop searchFilters ''search'')]
        else if search f \<noteq> [] then [(''search'', search f)] else [])
     @ [(''page'', string_of_nat pageNum), (''limit'', ''20'')]"

text \<open>Sample data for the concrete instances below.\<close>

definition sample_listing :: listing where
  "sample_listing =
     \<lparr>l_id = 1, title = ''iPhone 15 Pro Max 256GB'', l_brand = ''Apple'',
      l_condition = ''Like New'', price = 285000, negotiable = True, l_city = ''Karachi''\<rparr>"

definition sample_user :: user_info where
  "sample_user =
     \<lparr>u_id = 7, name = ''Ayesha'', email = ''ayesha@example.com'', user_type = ''individual''\<rparr>"

definition sample_call :: listings_call where
  "sample_call = \<lparr>lc_params = [], lc_pageNum = 2, lc_append = True\<rparr>"

text \<open>A visitor who has loaded three pages of results.\<close>

definition browsing_state :: app_state where
  "browsing_state = (initial_state None)\<lparr>listings := [sample_listing], page := 3\<rparr>"

text \<open>The state right after a login that succeeded.\<close>

definition logged_in_state :: app_state where
  "logged_in_state =
     handleLogin [] (Ok \<lparr>access_token = ''t0k3n'', auth_user = sample_user\<rparr>) (initial_state None)"

text \<open>
  A click on the brand card "Apple" in the first state: the handler sends one request, the
  render that follows sends a second one from the effect, and then the first request is
  answered with a full page while the second is still waiting for its answer.
\<close>

definition card_clicked :: "app_state \<times> listings_call" where
  "card_clicked = categoryCardClick ''Apple'' (initial_state None)"

definition card_rendered :: "app_state \<times> listings_call option" where
  "card_rendered = filtersEffect (filters (initial_state None)) (fst card_clicked)"

definition first_answered :: app_state where
  "first_answered =
     loadListings_complete (snd card_clicked) (Ok (replicate 20 sample_listing))
       (fst card_rendered)"

section \<open>Results of a listings fetch\<close>

lemma loadListings_complete_Ok:
  "loadListings_complete c (Ok items) st =
     st\<lparr>listings := (if lc_append c then listings st @ items else items),
        hasMoreListings := (length items = 20), page := lc_pageNum c, loading := False\<rparr>"
  by (simp add: loadListings_complete_def)

lemma loadListings_complete_Failed:
  "loadListings_complete c (Failed d) st =
     st\<lparr>toast := Some \<lparr>message = ''Error loading listings'', type = ''error''\<rparr>,
        toastTimers := toastTimers st + 1, listings := [], loading := False\<rparr>"
  by (simp add: loadListings_complete_def showToast_def)

lemma loadListings_unfold:
  "loadListings sf pageNum appendFlag resp st =
     loadListings_complete
       \<lparr>lc_params = loadListings_params (filters st) sf pageNum, lc_pageNum = pageNum,
          lc_append = appendFlag\<rparr>
       resp
       (st\<lparr>loading := True,
           requests := requests st @ [Get ''/listings'' (loadListings_params (filters st) sf pageNum)]\<rparr>)"
  by (simp add: loadListings_def loadListings_begin_def issue_def Let_def)

text \<open>
  Claim C2. After a successful listings fetch \<open>hasMoreListings\<close> is true exactly when the
  response held 20 items: it is false for 19 or fewer and for 21, and a response of 21
  items goes through the success path (no toast is raised, the items are stored, the page
  number is recorded, the loading flag is cleared).
\<close>

theorem hasMoreListings_iff_full_page:
  "hasMoreListings (loadListings_complete c (Ok items) st) = (length items = 20)
   \<and> hasMoreListings (loadListings sf pageNum appendFlag (Ok items) st) = (length items = 20)
   \<and> (length items \<le> 19 \<longrightarrow> \<not> hasMoreListings (loadListings_complete c (Ok items) st))
   \<and> (length items = 21 \<longrightarrow>
        \<not> hasMoreListings (loadListings_complete c (Ok items) st)
        \<and> toast (loadListings_complete c (Ok items) st) = toast st
        \<and> listings (loadListings_complete c (Ok items) st) =
            (if lc_append c then listings st @ items else items)
        \<and> page (loadListings_complete c (Ok items) st) = lc_pageNum c
        \<and> \<not> loading (loadListings_complete c (Ok items) st))"
  by (simp add: loadListings_complete_Ok loadListings_unfold)

theorem hasMoreListings_iff_full_page_witness:
  "length (replicate 19 sample_listing) \<le> 19
   \<and> \<not> hasMoreListings
        (loadListings_complete sample_call (Ok (replicate 19 sample_listing)) (initial_state None))
   \<and> hasMoreListings
        (loadListings_complete sample_call (Ok (replicate 20 sample_listing)) (initial_state None))
   \<and> length (replicate 21 sample_listing) = 21
   \<and> \<not> hasMoreListings
        (loadListings_complete sample_call (Ok (replicate 21 sample_listing)) (initial_state None))
   \<and> length (listings
        (loadListings_complete sample_call (Ok (replicate 21 sample_listing)) (initial_state None))) = 21
   \<and> toast (loadListings_complete sample_call (Ok (replicate 21 sample_listing)) (initial_state None))
       = None"
  using hasMoreListings_iff_full_page [of sample_call "replicate 19 sample_listing" "initial_state None"]
        hasMoreListings_iff_full_page [of sample_call "replicate 20 sample_listing" "initial_state None"]
        hasMoreListings_iff_full_page [of sample_call "replicate 21 sample_listing" "initial_state None"]
  by (simp add: sample_call_def initial_state_def)

text \<open>
  Claim C5. A listings fetch that fails sets the result buffer to the empty list and raises
  the error toast; whatever the answer (a failure, a page of items, an empty page) the
  loading flag is cleared when the fetch completes.
\<close>

theorem loadListings_failure_clears_and_loading_cleared:
  "listings (loadListings_complete c (Failed d) st) = []
   \<and> toast (loadListings_complete c (Failed d) st) =
        Some \<lparr>message = ''Error loading listings'', type = ''error''\<rparr>
   \<and> toastTimers (loadListings_complete c (Failed d) st) = toastTimers st + 1
   \<and> loading (loadListings_complete c resp st) = False
   \<and> loading (loadListings_complete c (Ok []) st) = False
   \<and> loading (loadListings sf pageNum appendFlag resp st) = False
   \<and> listings (loadListings sf pageNum appendFlag (Failed d) st) = []
   \<and> toast (loadListings sf pageNum appendFlag (Failed d) st) =
        Some \<lparr>message = ''Error loading listings'', type = ''error''\<rparr>"
  by (cases resp)
     (simp_all add: loadListings_complete_Ok loadListings_complete_Failed loadListings_unfold)

text \<open>
  Claim C10. A listings fetch that fails leaves the pagination state as it was: \<open>page\<close>
  and \<open>hasMoreListings\<close> keep their values while the result buffer is emptied, also for a
  failed append.
\<close>

theorem loadListings_failure_keeps_pagination:
  "page (loadListings_complete c (Failed d) st) = page st
   \<and> hasMoreListings (loadListings_complete c (Failed d) st) = hasMoreListings st
   \<and> listings (loadListings_complete c (Failed d) st) = []
   \<and> page (loadListings sf pageNum appendFlag (Failed d) st) = page st
   \<and> hasMoreListings (loadListings sf pageNum appendFlag (Failed d) st) = hasMoreListings st
   \<and> listings (loadListings sf pageNum True (Failed d) st) = []"
  by (simp add: loadListings_complete_Failed loadListings_unfold)

section \<open>Load more\<close>

lemma loadListings_begin_unfold:
  "loadListings_begin sf pageNum appendFlag st =
     (st\<lparr>loading := True,
         requests := requests st @ [Get ''/listings'' (loadListings_params (filters st) sf pageNum)]\<rparr>,
      \<lparr>lc_params = loadListings_params (filters st) sf pageNum, lc_pageNum = pageNum,
         lc_append = appendFlag\<rparr>)"
  by (simp add: loadListings_begin_def issue_def Let_def)

lemma page_param_sent:
  "(''page'', string_of_nat pageNum) \<in> set (loadListings_params f sf pageNum)"
  by (simp add: loadListings_params_def Let_def)

lemma filters_loadListings_complete:
  "filters (loadListings_complete c resp st) = filters st"
  by (cases resp) (simp_all add: loadListings_complete_Ok loadListings_complete_Failed)

lemma loading_loadListings_complete:
  "loading (loadListings_complete c resp st) = False"
  by (cases resp) (simp_all add: loadListings_complete_Ok loadListings_complete_Failed)

text \<open>
  Claim C9 (amended). "Load more" does nothing while the loading flag is set or while
  \<open>hasMoreListings\<close> is false. The flag is set when a listings load starts, so "Load
  more" does nothing right after one has started, and it is cleared when the answer of any
  listings load is handled. When "Load more" fires it issues one listings request for
  page \<open>page + 1\<close> with \<open>append = true\<close>. Neither the handler nor the completion of
  the request, whatever the answer, changes the filter state.
\<close>

theorem loadMoreListings_guard_and_frame:
  "(\<not> hasMoreListings st \<or> loading st \<longrightarrow> loadMoreListings st = (st, None))
   \<and> loadMoreListings (fst (loadListings_begin sf pageNum appendFlag st)) =
        (fst (loadListings_begin sf pageNum appendFlag st), None)
   \<and> (hasMoreListings st \<and> \<not> loading st \<longrightarrow>
        (\<exists>st' c. loadMoreListings st = (st', Some c)
           \<and> lc_pageNum c = page st + 1 \<and> lc_append c
           \<and> (''page'', string_of_nat (page st + 1)) \<in> set (lc_params c)
           \<and> requests st' = requests st @ [Get ''/listings'' (lc_params c)]))
   \<and> loading (loadListings_complete c' resp s) = False
   \<and> filters (fst (loadMoreListings st)) = filters st
   \<and> filters (loadListings_complete c' resp s) = filters s"
  by (simp add: loadMoreListings_def loadListings_begin_unfold page_param_sent
        filters_loadListings_complete loading_loadListings_complete)

theorem loadMoreListings_guard_and_frame_witness:
  "hasMoreListings browsing_state
   \<and> \<not> loading browsing_state
   \<and> (\<exists>st' c. loadMoreListings browsing_state = (st', Some c)
          \<and> lc_pageNum c = page browsing_state + 1 \<and> lc_append c
          \<and> (''page'', string_of_nat (page browsing_state + 1)) \<in> set (lc_params c)
          \<and> requests st' = requests browsing_state @ [Get ''/listings'' (lc_params c)])
   \<and> loading (browsing_state\<lparr>loading := True\<rparr>)
   \<and> loadMoreListings (browsing_state\<lparr>loading := True\<rparr>) = (browsing_state\<lparr>loading := True\<rparr>, None)
   \<and> \<not> hasMoreListings (browsing_state\<lparr>hasMoreListings := False\<rparr>)
   \<and> loadMoreListings (browsing_state\<lparr>hasMoreListings := False\<rparr>) =
        (browsing_state\<lparr>hasMoreListings := False\<rparr>, None)"
proof -
  have a: "hasMoreListings browsing_state" "\<not> loading browsing_state"
    by (simp_all add: browsing_state_def initial_state_def)
  have b: "loading (browsing_state\<lparr>loading := True\<rparr>)"
    by simp
  have c: "\<not> hasMoreListings (browsing_state\<lparr>hasMoreListings := False\<rparr>)"
    by simp
  show ?thesis
    using a b c
      loadMoreListings_guard_and_frame [of browsing_state]
      loadMoreListings_guard_and_frame [of "browsing_state\<lparr>loading := True\<rparr>"]
      loadMoreListings_guard_and_frame [of "browsing_state\<lparr>hasMoreListings := False\<rparr>"]
    by blast
qed

text \<open>
  The claim as it is stated fails, since the one loading flag does not tell whether a load
  is in flight. The click on a brand card sends a request from the handler and a second
  one from the effect of the next render. When the first is answered with a full page the
  flag is cleared while the second request has no answer yet, and "Load more" fires: it
  sends a third request, for page 2 with \<open>append = true\<close>.
\<close>

theorem loadMore_fires_while_load_pending:
  "requests (fst card_clicked) =
     [Get ''/listings''
        [(''brand'', ''Apple''), (''sort_by'', ''recent''), (''page'', ''1''), (''limit'', ''20'')]]
   \<and> map_option lc_pageNum (snd card_rendered) = Some 1
   \<and> requests first_answered =
     [Get ''/listings''
        [(''brand'', ''Apple''), (''sort_by'', ''recent''), (''page'', ''1''), (''limit'', ''20'')],
      Get ''/listings''
        [(''brand'', ''Apple''), (''sort_by'', ''recent''), (''page'', ''1''), (''limit'', ''20'')]]
   \<and> loading (fst card_rendered)
   \<and> \<not> loading first_answered
   \<and> hasMoreListings first_answered
   \<and> map_option lc_pageNum (snd (loadMoreListings first_answered)) = Some 2
   \<and> map_option lc_append (snd (loadMoreListings first_answered)) = Some True
   \<and> requests (fst (loadMoreListings first_answered)) =
     [Get ''/listings''
        [(''brand'', ''Apple''), (''sort_by'', ''recent''), (''page'', ''1''), (''limit'', ''20'')],
      Get ''/listings''
        [(''brand'', ''Apple''), (''sort_by'', ''recent''), (''page'', ''1''), (''limit'', ''20'')],
      Get ''/listings''
        [(''brand'', ''Apple''), (''sort_by'', ''recent''), (''page'', ''2''), (''limit'', ''20'')]]"
  by code_simp

section \<open>Filter changes and pagination\<close>




section \<open>The parameters of a listings request\<close>

lemma replace_first_Price:
  "replace_first ''Price'' ''_price'' ''minPrice'' = ''min_price''"
  "replace_first ''Price'' ''_price'' ''maxPrice'' = ''max_price''"
  by simp_all

lemma param_name_minPrice: "param_name ''minPrice'' = ''min_price''"
  by (simp add: param_name_def)

lemma param_name_maxPrice: "param_name ''maxPrice'' = ''max_price''"
  by (simp add: param_name_def)

lemma param_name_other:
  "k \<noteq> ''minPrice'' \<Longrightarrow> k \<noteq> ''maxPrice'' \<Longrightarrow>
     param_name k = (if k = ''sortBy'' then ''sort_by'' else k)"
  by (simp only: param_name_def if_False)

lemma add_filters_step:
  "add_filters ((k, v) # entries) params =
     add_filters entries
       (if v \<noteq> [] \<and> k \<noteq> ''search'' then params @ [(param_name k, v)] else params)"
proof (cases "k = ''minPrice''")
  case True
  show ?thesis
    unfolding True add_filters.simps truthy_def
    by (simp only: param_name_minPrice replace_first_Price simp_thms if_True)
next
  case False
  note nmin = False
  show ?thesis
  proof (cases "k = ''maxPrice''")
    case True
    show ?thesis
      unfolding True add_filters.simps truthy_def
      by (simp only: param_name_maxPrice replace_first_Price simp_thms if_True)
  next
    case False
    show ?thesis
      unfolding add_filters.simps truthy_def
      by (simp only: param_name_other [OF nmin False] nmin False simp_thms if_False)
  qed
qed

lemma set_add_filters:
  "set (add_filters entries params) =
     set params \<union> {(param_name k, v) |k v. (k, v) \<in> set entries \<and> v \<noteq> [] \<and> k \<noteq> ''search''}"
proof (induction entries arbitrary: params)
  case Nil
  then show ?case by simp
next
  case (Cons e entries)
  obtain k v where e: "e = (k, v)" by (cases e)
  have step: "set (add_filters (e # entries) params) =
      set (if v \<noteq> [] \<and> k \<noteq> ''search'' then params @ [(param_name k, v)] else params)
      \<union> {(param_name k, v) |k v. (k, v) \<in> set entries \<and> v \<noteq> [] \<and> k \<noteq> ''search''}"
    by (simp only: e add_filters_step Cons.IH)
  show ?case
  proof (cases "v \<noteq> [] \<and> k \<noteq> ''search''")
    case True
    have "{(param_name k', v') |k' v'. (k', v') \<in> set (e # entries) \<and> v' \<noteq> [] \<and> k' \<noteq> ''search''}
          = insert (param_name k, v)
              {(param_name k', v') |k' v'. (k', v') \<in> set entries \<and> v' \<noteq> [] \<and> k' \<noteq> ''search''}"
      using True unfolding e by fastforce
    with step True show ?thesis by simp
  next
    case False
    have "{(param_name k', v') |k' v'. (k', v') \<in> set (e # entries) \<and> v' \<noteq> [] \<and> k' \<noteq> ''search''}
          = {(param_name k', v') |k' v'. (k', v') \<in> set entries \<and> v' \<noteq> [] \<and> k' \<noteq> ''search''}"
      using False unfolding e by fastforce
    with step False show ?thesis by simp
  qed
qed

lemma map_of_set_prop: "map_of (set_prop obj k v) = (map_of obj)(k \<mapsto> v)"
  by (induction obj k v rule: set_prop.induct) (auto simp: fun_eq_iff)

lemma keys_set_prop: "fst ` set (set_prop obj k v) = insert k (fst ` set obj)"
  by (induction obj k v rule: set_prop.induct) auto

lemma distinct_set_prop:
  "distinct (map fst obj) \<Longrightarrow> distinct (map fst (set_prop obj k v))"
proof (induction obj k v rule: set_prop.induct)
  case (1 k v)
  then show ?case by simp
next
  case (2 k' v' obj k v)
  then show ?case
    using keys_set_prop [of obj k v] by (auto simp: image_iff)
qed

lemma distinct_spread:
  "distinct (map fst a) \<Longrightarrow> distinct (map fst (spread a b))"
  by (induction a b rule: spread.induct) (auto simp: distinct_set_prop)

text \<open>Spreading \<open>b\<close> over \<open>a\<close> is the map of \<open>a\<close> overridden by the map of \<open>b\<close>.\<close>

lemma map_of_spread:
  "distinct (map fst b) \<Longrightarrow> map_of (spread a b) = map_of a ++ map_of b"
proof (induction a b rule: spread.induct)
  case (1 a)
  then show ?case by simp
next
  case (2 a k v b)
  then have kb: "k \<notin> fst ` set b" and db: "distinct (map fst b)" by auto
  have "map_of (spread a ((k, v) # b)) = map_of (spread (set_prop a k v) b)"
    by simp
  also have "\<dots> = map_of (set_prop a k v) ++ map_of b"
    using "2.IH" db by blast
  also have "\<dots> = (map_of a)(k \<mapsto> v) ++ map_of b"
    by (simp only: map_of_set_prop)
  also have "\<dots> = map_of a ++ map_of ((k, v) # b)"
  proof
    fix x
    have kn: "map_of b k = None"
      using kb by (simp add: map_of_eq_None_iff)
    show "((map_of a)(k \<mapsto> v) ++ map_of b) x = (map_of a ++ map_of ((k, v) # b)) x"
      using kn by (cases "x = k") (simp_all add: map_add_def split: option.splits)
  qed
  finally show ?case .
qed

lemma distinct_filters_entries: "distinct (map fst (filters_entries f))"
  by (simp add: filters_entries_def)

text \<open>
  Claim C3 (amended). For every filter state, every override object and every page number
  the request built by \<open>loadListings\<close> holds exactly these parameters: for each key other
  than search of the stored filters overlaid with the override (an entry of the override
  replaces the stored field, a key the filters do not have is added) whose value is not
  empty, that value under the key's parameter name (\<open>sort_by\<close> for sortBy, \<open>min_price\<close>
  and \<open>max_price\<close> for minPrice and maxPrice, the key itself otherwise); \<open>search\<close> with the
  override's search text when that is not empty, otherwise with the stored search text
  when that is not empty, otherwise no \<open>search\<close>; \<open>page\<close> with the requested page number
  and \<open>limit\<close> with 20.
\<close>

theorem loadListings_params_exact:
  assumes "distinct (map fst searchFilters)"
  shows "set (loadListings_params f searchFilters pageNum) =
     {(param_name k, v) |k v.
        (map_of (filters_entries f) ++ map_of searchFilters) k = Some v \<and> v \<noteq> [] \<and> k \<noteq> ''search''}
     \<union> (if get_prop searchFilters ''search'' \<noteq> []
        then {(''search'', get_prop searchFilters ''search'')}
        else if search f \<noteq> [] then {(''search'', search f)} else {})
     \<union> {(''page'', string_of_nat pageNum), (''limit'', ''20'')}"
proof -
  let ?m = "spread (filters_entries f) searchFilters"
  have d: "distinct (map fst ?m)"
    by (rule distinct_spread) (rule distinct_filters_entries)
  have m: "\<And>k v. (k, v) \<in> set ?m \<longleftrightarrow>
             (map_of (filters_entries f) ++ map_of searchFilters) k = Some v"
    using d assms by (simp add: map_of_spread [symmetric])
  show ?thesis
    by (auto simp add: loadListings_params_def Let_def set_add_filters m truthy_def)
qed

theorem loadListings_params_exact_witness:
  "distinct (map fst [(''brand'', ''Apple''), (''search'', ''pro'')])
   \<and> set (loadListings_params (initial_filters\<lparr>city := ''Lahore''\<rparr>)
            [(''brand'', ''Apple''), (''search'', ''pro'')] 2) =
     {(param_name k, v) |k v.
        (map_of (filters_entries (initial_filters\<lparr>city := ''Lahore''\<rparr>))
           ++ map_of [(''brand'', ''Apple''), (''search'', ''pro'')]) k = Some v
        \<and> v \<noteq> [] \<and> k \<noteq> ''search''}
     \<union> (if get_prop [(''brand'', ''Apple''), (''search'', ''pro'')] ''search'' \<noteq> []
        then {(''search'', get_prop [(''brand'', ''Apple''), (''search'', ''pro'')] ''search'')}
        else if search (initial_filters\<lparr>city := ''Lahore''\<rparr>) \<noteq> []
             then {(''search'', search (initial_filters\<lparr>city := ''Lahore''\<rparr>))} else {})
     \<union> {(''page'', string_of_nat 2), (''limit'', ''20'')}"
proof -
  have d: "distinct (map fst [(''brand'', ''Apple''), (''search'', ''pro'')])"
    by simp
  show ?thesis
    by (rule conjI, rule d, rule loadListings_params_exact [OF d])
qed

text \<open>The request of that instance, computed.\<close>

lemma loadListings_params_example:
  "loadListings_params (initial_filters\<lparr>city := ''Lahore''\<rparr>)
     [(''brand'', ''Apple''), (''search'', ''pro'')] 2 =
   [(''brand'', ''Apple''), (''city'', ''Lahore''), (''sort_by'', ''recent''),
    (''search'', ''pro''), (''page'', ''2''), (''limit'', ''20'')]"
  by code_simp

text \<open>
  The claim as it is stated takes the filter fields from the filter state. The category
  cards call \<^verbatim>\<open>loadListings({brand})\<close> while the stored brand is still empty: the request
  carries the brand of the override, which the stored filters do not have.
\<close>

theorem override_brand_is_sent:
  "loadListings_params initial_filters [(''brand'', ''Apple'')] 1 =
     [(''brand'', ''Apple''), (''sort_by'', ''recent''), (''page'', ''1''), (''limit'', ''20'')]
   \<and> claimed_params initial_filters [(''brand'', ''Apple'')] 1 =
     [(''sort_by'', ''recent''), (''page'', ''1''), (''limit'', ''20'')]
   \<and> set (loadListings_params initial_filters [(''brand'', ''Apple'')] 1) \<noteq>
     set (claimed_params initial_filters [(''brand'', ''Apple'')] 1)"
  by code_simp

section \<open>Search suggestions\<close>

lemma startsWith_iff: "startsWith s t \<longleftrightarrow> (\<exists>suf. s = t @ suf)"
  by (induction s t rule: startsWith.induct) auto

lemma includes_str_iff: "includes_str s t \<longleftrightarrow> (\<exists>pre suf. s = pre @ t @ suf)"
proof (induction s)
  case Nil
  then show ?case by auto
next
  case (Cons c s)
  show ?case
  proof
    assume "includes_str (c # s) t"
    then consider "startsWith (c # s) t" | "includes_str s t" by auto
    then show "\<exists>pre suf. c # s = pre @ t @ suf"
    proof cases
      case 1
      then obtain suf where "c # s = t @ suf" by (auto simp: startsWith_iff)
      then have "c # s = [] @ t @ suf" by simp
      then show ?thesis by blast
    next
      case 2
      then obtain pre suf where "s = pre @ t @ suf" using Cons.IH by auto
      then have "c # s = (c # pre) @ t @ suf" by simp
      then show ?thesis by blast
    qed
  next
    assume "\<exists>pre suf. c # s = pre @ t @ suf"
    then obtain pre suf where e: "c # s = pre @ t @ suf" by blast
    show "includes_str (c # s) t"
    proof (cases pre)
      case Nil
      with e have "startsWith (c # s) t" by (auto simp: startsWith_iff)
      then show ?thesis by simp
    next
      case (Cons a pre')
      with e have "s = pre' @ t @ suf" by simp
      then have "includes_str s t" using Cons.IH by blast
      then show ?thesis by simp
    qed
  qed
qed

text \<open>Lower-casing sends two characters to the same character exactly when they are
  the same letter.\<close>

lemma char_of_nat_code: "of_char c = (n::nat) \<Longrightarrow> c = char_of n"
  by (metis char_of_char)

lemma letter_pairs_table:
  "list_all (\<lambda>n. (char_of n, char_of (n + 32)) \<in> set (zip capital_letters small_letters))
     [65..<91]"
  by code_simp

lemma letter_pairs_iff:
  "(c, d) \<in> set (zip capital_letters small_letters) \<longleftrightarrow>
     65 \<le> (of_char c :: nat) \<and> (of_char c :: nat) \<le> 90 \<and> (of_char d :: nat) = of_char c + 32"
proof
  assume "(c, d) \<in> set (zip capital_letters small_letters)"
  then show "65 \<le> (of_char c :: nat) \<and> (of_char c :: nat) \<le> 90 \<and> (of_char d :: nat) = of_char c + 32"
    unfolding capital_letters_def small_letters_def by auto
next
  assume a: "65 \<le> (of_char c :: nat) \<and> (of_char c :: nat) \<le> 90 \<and> (of_char d :: nat) = of_char c + 32"
  define n where "n = (of_char c :: nat)"
  have c: "c = char_of n" and d: "d = char_of (n + 32)"
    using a by (simp_all add: n_def char_of_nat_code)
  have "n \<in> set [65..<91]"
    using a unfolding n_def [symmetric] set_upt atLeastLessThan_iff by arith
  with letter_pairs_table
  have "(char_of n, char_of (n + 32)) \<in> set (zip capital_letters small_letters)"
    unfolding list_all_iff by blast
  then show "(c, d) \<in> set (zip capital_letters small_letters)"
    by (simp only: c d)
qed

lemma toLowerCase_char_eq_iff:
  "toLowerCase_char c = toLowerCase_char d \<longleftrightarrow> same_letter c d"
proof -
  define m where "m = (of_char c :: nat)"
  define n where "n = (of_char d :: nat)"
  have cd: "c = d \<longleftrightarrow> m = n"
    by (simp add: m_def n_def)
  have lc: "(of_char (toLowerCase_char c) :: nat) = (if 65 \<le> m \<and> m \<le> 90 then m + 32 else m)"
    by (simp add: toLowerCase_char_def m_def Let_def)
  have ld: "(of_char (toLowerCase_char d) :: nat) = (if 65 \<le> n \<and> n \<le> 90 then n + 32 else n)"
    by (simp add: toLowerCase_char_def n_def Let_def)
  have "toLowerCase_char c = toLowerCase_char d \<longleftrightarrow>
          (of_char (toLowerCase_char c) :: nat) = of_char (toLowerCase_char d)"
    by simp
  also have "\<dots> \<longleftrightarrow> (m = n \<or> (65 \<le> m \<and> m \<le> 90 \<and> n = m + 32) \<or> (65 \<le> n \<and> n \<le> 90 \<and> m = n + 32))"
    unfolding lc ld by auto
  also have "\<dots> \<longleftrightarrow> same_letter c d"
    unfolding same_letter_def letter_pairs_iff cd m_def n_def by simp
  finally show ?thesis .
qed

lemma toLowerCase_eq_iff:
  "toLowerCase s = toLowerCase t \<longleftrightarrow> list_all2 same_letter s t"
proof -
  have "toLowerCase s = toLowerCase t \<longleftrightarrow>
          list_all2 (=) (map toLowerCase_char s) (map toLowerCase_char t)"
    by (simp add: toLowerCase_def list.rel_eq)
  also have "\<dots> \<longleftrightarrow> list_all2 (\<lambda>c d. toLowerCase_char c = toLowerCase_char d) s t"
    by (simp add: list_all2_map1 list_all2_map2)
  finally show ?thesis
    by (simp add: toLowerCase_char_eq_iff)
qed

lemma toLowerCase_append: "toLowerCase (s @ t) = toLowerCase s @ toLowerCase t"
  by (simp add: toLowerCase_def)

text \<open>The lower-cased name contains the lower-cased input exactly when a piece of the
  name matches the input letter by letter.\<close>

lemma contains_folded_iff:
  "(\<exists>pre suf. toLowerCase m = pre @ toLowerCase v @ suf) \<longleftrightarrow>
   (\<exists>pre mid suf. m = pre @ mid @ suf \<and> list_all2 same_letter mid v)"
proof
  assume "\<exists>pre suf. toLowerCase m = pre @ toLowerCase v @ suf"
  then obtain pre suf where e: "map toLowerCase_char m = pre @ (map toLowerCase_char v @ suf)"
    by (auto simp: toLowerCase_def)
  from e [unfolded map_eq_append_conv]
  obtain p r where m1: "m = p @ r"
    and r: "map toLowerCase_char v @ suf = map toLowerCase_char r"
    by blast
  from r [symmetric, unfolded map_eq_append_conv]
  obtain mid s where m2: "r = mid @ s"
    and mid: "map toLowerCase_char v = map toLowerCase_char mid"
    by blast
  from mid have "list_all2 same_letter mid v"
    using toLowerCase_eq_iff [of mid v] by (simp add: toLowerCase_def)
  with m1 m2 show "\<exists>pre mid suf. m = pre @ mid @ suf \<and> list_all2 same_letter mid v"
    by blast
next
  assume "\<exists>pre mid suf. m = pre @ mid @ suf \<and> list_all2 same_letter mid v"
  then obtain pre mid suf where m: "m = pre @ mid @ suf" and l: "list_all2 same_letter mid v"
    by blast
  from l have "toLowerCase mid = toLowerCase v"
    by (simp add: toLowerCase_eq_iff)
  then have "toLowerCase m = toLowerCase pre @ toLowerCase v @ toLowerCase suf"
    by (simp add: m toLowerCase_append)
  then show "\<exists>pre suf. toLowerCase m = pre @ toLowerCase v @ suf"
    by blast
qed

text \<open>
  Claim C6. On a keystroke with a non-empty input the suggestion list becomes the catalog
  entries that contain the input case-insensitively (a piece of the entry matches the
  input letter by letter, capital or small), in catalog order, cut after the sixth, and is
  shown; with the empty input the list is hidden, whatever the state was.
\<close>

theorem handleSearchInput_suggestions:
  "(v \<noteq> [] \<longrightarrow>
      searchSuggestions (handleSearchInput v st) =
        take 6 (filter (\<lambda>m. \<exists>pre mid suf. m = pre @ mid @ suf \<and> list_all2 same_letter mid v)
                  phoneModels)
      \<and> length (searchSuggestions (handleSearchInput v st)) \<le> 6
      \<and> showSuggestions (handleSearchInput v st))
   \<and> \<not> showSuggestions (handleSearchInput [] st)
   \<and> \<not> suggestionsVisible (handleSearchInput [] st)"
  by (simp add: handleSearchInput_def setFilters_def Let_def includes_str_iff
        contains_folded_iff suggestionsVisible_def)

theorem handleSearchInput_suggestions_witness:
  "''iph'' \<noteq> []
   \<and> searchSuggestions (handleSearchInput ''iph'' (initial_state None)) =
        take 6 (filter (\<lambda>m. \<exists>pre mid suf. m = pre @ mid @ suf \<and> list_all2 same_letter mid ''iph'')
                  phoneModels)
   \<and> length (searchSuggestions (handleSearchInput ''iph'' (initial_state None))) \<le> 6
   \<and> showSuggestions (handleSearchInput ''iph'' (initial_state None))"
proof -
  have a: "''iph'' \<noteq> []" by simp
  show ?thesis
    using a handleSearchInput_suggestions [of "''iph''" "initial_state None"] by blast
qed

text \<open>The suggestions for "iph", computed.\<close>

lemma handleSearchInput_example:
  "searchSuggestions (handleSearchInput ''iph'' (initial_state None)) =
     [''iPhone 15 Pro Max'', ''iPhone 15 Pro'', ''iPhone 15'', ''iPhone 14 Pro Max'',
      ''iPhone 14 Pro'', ''iPhone 14'']"
  by code_simp

section \<open>Actions that need a user\<close>

text \<open>
  Claim C7. Without a user, toggling a favorite, sending a message and submitting a review
  each raise their error toast (the toast is set and its timer started) and change nothing
  else: in particular no HTTP call is issued.
\<close>

theorem unauthenticated_actions_only_toast:
  assumes "user st = None"
  shows "toggleFavorite listingId r1 st =
           st\<lparr>toast := Some \<lparr>message = ''Please login to add favorites'', type = ''error''\<rparr>,
              toastTimers := toastTimers st + 1\<rparr>
         \<and> sendMessage receiverId listingId content messageType offerAmount r2 st =
           st\<lparr>toast := Some \<lparr>message = ''Please login to send messages'', type = ''error''\<rparr>,
              toastTimers := toastTimers st + 1\<rparr>
         \<and> submitReview reviewedUserId listingId rating comment r3 st =
           st\<lparr>toast := Some \<lparr>message = ''Please login to submit reviews'', type = ''error''\<rparr>,
              toastTimers := toastTimers st + 1\<rparr>
         \<and> requests (toggleFavorite listingId r1 st) = requests st
         \<and> requests (sendMessage receiverId listingId content messageType offerAmount r2 st) =
             requests st
         \<and> requests (submitReview reviewedUserId listingId rating comment r3 st) = requests st"
  using assms by (simp add: toggleFavorite_def sendMessage_def submitReview_def showToast_def)

theorem unauthenticated_actions_only_toast_witness:
  "user (initial_state None) = None
   \<and> toggleFavorite 1 (Ok ()) (initial_state None) =
       (initial_state None)
         \<lparr>toast := Some \<lparr>message = ''Please login to add favorites'', type = ''error''\<rparr>,
          toastTimers := toastTimers (initial_state None) + 1\<rparr>
   \<and> requests (toggleFavorite 1 (Ok ()) (initial_state None)) = requests (initial_state None)
   \<and> requests (sendMessage 2 1 ''hello'' ''text'' None (Ok ()) (initial_state None)) =
       requests (initial_state None)
   \<and> requests (submitReview 2 1 5 ''great'' (Ok ()) (initial_state None)) =
       requests (initial_state None)"
proof -
  have a: "user (initial_state None) = None"
    by (simp add: initial_state_def)
  show ?thesis
    using a
      unauthenticated_actions_only_toast
        [of "initial_state None" 1 "Ok ()" 2 "''hello''" "''text''" None "Ok ()" 2 5 "''great''"
            "Ok ()", OF a]
    by blast
qed

text \<open>With a user the same handlers do call the server.\<close>

lemma authenticated_actions_call_server:
  "requests (toggleFavorite 1 (Ok ()) logged_in_state) =
     [Post ''/auth/login'', Post ''/favorites/1'', Get ''/favorites'' []]"
  "requests (sendMessage 2 1 ''hello'' ''text'' None (Ok ()) logged_in_state) =
     [Post ''/auth/login'', Post ''/messages'', Get ''/conversations'' []]"
  "requests (submitReview 2 1 5 ''great'' (Ok ()) logged_in_state) =
     [Post ''/auth/login'', Post ''/reviews'', Get ''/users/2/reviews'' []]"
  by code_simp+

section \<open>Login and the session\<close>

text \<open>
  Claim C8. A login that the server accepts stores the access token in the state and in
  the durable storage, sets the user from the response and switches the view to "home".
  A login that fails raises an error toast with the server's detail text, or with
  "Login failed" when there is none, and leaves the view, the token (so a null token
  stays null), the stored token and the user as they were.
\<close>

theorem handleLogin_outcomes:
  "token (handleLogin d (Ok data) st) = Some (access_token data)
   \<and> localStorage_token (handleLogin d (Ok data) st) = Some (access_token data)
   \<and> user (handleLogin d (Ok data) st) = Some (auth_user data)
   \<and> currentPage (handleLogin d (Ok data) st) = ''home''
   \<and> toast (handleLogin d (Failed detail) st) =
       Some \<lparr>message = detail_or detail ''Login failed'', type = ''error''\<rparr>
   \<and> detail_or (Some (x # xs)) ''Login failed'' = x # xs
   \<and> detail_or None ''Login failed'' = ''Login failed''
   \<and> currentPage (handleLogin d (Failed detail) st) = currentPage st
   \<and> token (handleLogin d (Failed detail) st) = token st
   \<and> token (handleLogin d (Failed detail) (st\<lparr>token := None\<rparr>)) = None
   \<and> localStorage_token (handleLogin d (Failed detail) st) = localStorage_token st
   \<and> user (handleLogin d (Failed detail) st) = user st"
  by (simp add: handleLogin_def showToast_def issue_def Let_def detail_or_def truthy_def)

text \<open>A rejected login on the login page, computed.\<close>

lemma handleLogin_rejected_example:
  "toast (handleLogin [] (Failed (Some ''Invalid credentials''))
            ((initial_state None)\<lparr>currentPage := ''login''\<rparr>)) =
     Some \<lparr>message = ''Invalid credentials'', type = ''error''\<rparr>"
  "currentPage (handleLogin [] (Failed (Some ''Invalid credentials''))
            ((initial_state None)\<lparr>currentPage := ''login''\<rparr>)) = ''login''"
  "token (handleLogin [] (Failed (Some ''Invalid credentials''))
            ((initial_state None)\<lparr>currentPage := ''login''\<rparr>)) = None"
  by code_simp+

lemma tokenEffect_fetches_user:
  "token st = Some t \<Longrightarrow> t \<noteq> [] \<Longrightarrow>
     requests (tokenEffect resp st) = requests st @ [Get ''/auth/me'' []]"
  by (cases resp)
     (simp_all add: tokenEffect_def truthy_def loadCurrentUser_def issue_def
        connectWebSocket_def)

lemma loadCurrentUser_Failed:
  "loadCurrentUser (Failed detail) st =
     st\<lparr>requests := requests st @ [Get ''/auth/me'' []], token := None,
        localStorage_token := None\<rparr>"
  by (simp add: loadCurrentUser_def issue_def)

text \<open>
  Claim C4. A token in the state makes the token effect fetch the current user, and a
  failed fetch clears the token in the state and in the durable storage. The user is not
  reset: after a login that succeeded the user of the login response is still the current
  user when the fetch of \<^verbatim>\<open>/auth/me\<close> fails, where \<open>handleLogout\<close> sets it to null.
\<close>

theorem failed_user_fetch_keeps_user:
  "token logged_in_state = Some ''t0k3n''
   \<and> user logged_in_state = Some sample_user
   \<and> requests (tokenEffect (Failed None) logged_in_state) =
       requests logged_in_state @ [Get ''/auth/me'' []]
   \<and> token (tokenEffect (Failed None) logged_in_state) = None
   \<and> localStorage_token (tokenEffect (Failed None) logged_in_state) = None
   \<and> user (tokenEffect (Failed None) logged_in_state) = Some sample_user
   \<and> user (handleLogout logged_in_state) = None"
  by (simp add: logged_in_state_def handleLogin_def tokenEffect_def truthy_def
        loadCurrentUser_Failed handleLogout_def showToast_def issue_def Let_def
        initial_state_def)

end
